theory Spec2Isabelle
  imports Complex_Main
begin

section \<open>Data model\<close>

text \<open>
  The service keeps two JSON documents on disk. \<^verbatim>\<open>queues.json\<close> is a dictionary from queue
  id to \<^verbatim>\<open>{"created": float, "users": [str]}\<close>; \<^verbatim>\<open>stats.json\<close> is
  \<^verbatim>\<open>{"served_today": int, "history": [entry]}\<close>. A history entry has the keys \<^verbatim>\<open>user\<close>,
  \<^verbatim>\<open>queue\<close>, \<^verbatim>\<open>time\<close> and, for a deletion, \<^verbatim>\<open>event\<close>.
\<close>

type_synonym queue_id = string

record queue_rec =
  created :: real
  users :: "string list"

record history_rec =
  user :: string
  queue :: queue_id
  time :: string
  event :: "string option"

record stats_rec =
  served_today :: int
  history :: "history_rec list"

type_synonym store = "queue_id \<rightharpoonup> queue_rec"

text \<open>
  The file system as far as the handlers touch it: the two documents (\<open>None\<close> when the file
  does not exist) and the QR image cache \<^verbatim>\<open>static/qr_cache/<id>.png\<close>, kept as the URL each
  cached image encodes.
\<close>

record fs =
  data_file :: "store option"
  stats_file :: "stats_rec option"
  qr_cache :: "queue_id \<rightharpoonup> string"

section \<open>Persistent store\<close>

text \<open>
  A handler reads the documents when it starts and then writes. Its writes are kept as a list
  in program order, so that the state after any prefix of them (the process dying part-way)
  can be spoken about; running the whole list gives the state the handler leaves behind.
  \<^verbatim>\<open>with LOCK:\<close> in \<^verbatim>\<open>save_data\<close> does not change what a single request computes; the
  lock and what it means for two saves running at once are modelled further down.
\<close>

datatype effect =
    WriteData store
  | WriteStats stats_rec
  | SaveQr queue_id string
  | UnlinkQr queue_id

fun apply_effect :: "fs \<Rightarrow> effect \<Rightarrow> fs" where
  "apply_effect s (WriteData d) = s\<lparr>data_file := Some d\<rparr>"
| "apply_effect s (WriteStats st) = s\<lparr>stats_file := Some st\<rparr>"
| "apply_effect s (SaveQr qid url) = s\<lparr>qr_cache := (qr_cache s)(qid \<mapsto> url)\<rparr>"
| "apply_effect s (UnlinkQr qid) = s\<lparr>qr_cache := (qr_cache s)(qid := None)\<rparr>"

definition exec :: "effect list \<Rightarrow> fs \<Rightarrow> fs" where
  "exec effs s = foldl apply_effect s effs"

definition load_data :: "fs \<Rightarrow> store" where
  "load_data s = (case data_file s of Some d \<Rightarrow> d | None \<Rightarrow> Map.empty)"

definition save_data :: "store \<Rightarrow> effect list" where
  "save_data data = [WriteData data]"

definition default_stats :: stats_rec where
  "default_stats = \<lparr>served_today = 0, history = []\<rparr>"

definition load_stats :: "fs \<Rightarrow> stats_rec" where
  "load_stats s = (case stats_file s of Some st \<Rightarrow> st | None \<Rightarrow> default_stats)"

definition save_stats :: "stats_rec \<Rightarrow> effect list" where
  "save_stats stats = [WriteStats stats]"

text \<open>Module start-up: each document is created when its file is missing.\<close>

definition initialize :: "fs \<Rightarrow> effect list" where
  "initialize s =
     (if data_file s = None then save_data Map.empty else []) @
     (if stats_file s = None then save_stats default_stats else [])"

section \<open>Requests and responses\<close>

text \<open>
  What a handler takes from outside the two documents is an argument: the 32 hexadecimal
  digits of \<^verbatim>\<open>uuid.uuid4().hex\<close>, the value of \<^verbatim>\<open>time.time()\<close>, the \<^verbatim>\<open>%H:%M:%S\<close> clock
  string, the external URL root used by \<^verbatim>\<open>url_for\<close>, and the request's JSON body. The body is
  \<open>None\<close> when there is none, otherwise a dictionary; the value under \<^verbatim>\<open>"name"\<close> is taken
  to be a string when present.
\<close>

type_synonym json_body = "(string \<rightharpoonup> string) option"

datatype response =
    CreatedJson queue_id string
  | NotFoundText
  | PngFile string
  | ErrorJson string nat
  | UsersJson "string list"
  | JoinedJson string nat
  | OkJson
  | RemovedJson "string option"
  | DeletedJson string
  | NoHistoryJson
  | ClearedLastJson history_rec
  | ClearedAllJson nat

text \<open>\<^verbatim>\<open>url_for("join_queue_page", queue_id=queue_id, _external=True)\<close>\<close>

definition join_queue_url :: "string \<Rightarrow> queue_id \<Rightarrow> string" where
  "join_queue_url url_root queue_id = url_root @ ''/queue/'' @ queue_id"

text \<open>\<^verbatim>\<open>request.json or {}\<close>\<close>

definition payload_of :: "json_body \<Rightarrow> (string \<rightharpoonup> string)" where
  "payload_of body = (case body of None \<Rightarrow> Map.empty | Some p \<Rightarrow> p)"

text \<open>Python truthiness of \<^verbatim>\<open>payload.get("name")\<close>: \<open>None\<close> and the empty string are falsy.\<close>

definition truthy :: "string option \<Rightarrow> bool" where
  "truthy v = (case v of None \<Rightarrow> False | Some n \<Rightarrow> n \<noteq> [])"

text \<open>\<^verbatim>\<open>stats["history"][-50:]\<close>: the last \<open>n\<close> elements, the whole list when it is shorter.\<close>

definition keep_last :: "nat \<Rightarrow> 'a list \<Rightarrow> 'a list" where
  "keep_last n xs = drop (length xs - n) xs"

section \<open>Handlers\<close>

definition create_queue :: "string \<Rightarrow> real \<Rightarrow> string \<Rightarrow> fs \<Rightarrow> response \<times> effect list" where
  "create_queue uuid_hex now url_root s =
     (let data = load_data s;
          queue_id = take 8 uuid_hex;
          data' = data(queue_id \<mapsto> \<lparr>created = now, users = []\<rparr>)
      in (CreatedJson queue_id (join_queue_url url_root queue_id), save_data data'))"

definition queue_qr :: "queue_id \<Rightarrow> string \<Rightarrow> fs \<Rightarrow> response \<times> effect list" where
  "queue_qr queue_id url_root s =
     (let data = load_data s in
      case data queue_id of
        None \<Rightarrow> (NotFoundText, [])
      | Some q \<Rightarrow>
          (case qr_cache s queue_id of
             Some png \<Rightarrow> (PngFile png, [])
           | None \<Rightarrow>
               let queue_url = join_queue_url url_root queue_id
               in (PngFile queue_url, [SaveQr queue_id queue_url])))"

definition queue_data :: "queue_id \<Rightarrow> fs \<Rightarrow> response \<times> effect list" where
  "queue_data queue_id s =
     (let data = load_data s in
      case data queue_id of
        None \<Rightarrow> (ErrorJson ''not_found'' 404, [])
      | Some q \<Rightarrow> (UsersJson (users q), []))"

text \<open>\<^verbatim>\<open>payload.get("name") or f"User_{uuid.uuid4().hex[:6]}"\<close>\<close>

definition join_name :: "json_body \<Rightarrow> string \<Rightarrow> string" where
  "join_name body uuid_hex =
     (let payload = payload_of body in
      if truthy (payload ''name'') then the (payload ''name'')
      else ''User_'' @ take 6 uuid_hex)"

definition queue_join :: "queue_id \<Rightarrow> json_body \<Rightarrow> string \<Rightarrow> fs \<Rightarrow> response \<times> effect list" where
  "queue_join queue_id body uuid_hex s =
     (let name = join_name body uuid_hex;
          data = load_data s in
      case data queue_id of
        None \<Rightarrow> (ErrorJson ''not_found'' 404, [])
      | Some q \<Rightarrow>
          let data' = data(queue_id \<mapsto> q\<lparr>users := users q @ [name]\<rparr>);
              position = length (users q @ [name])
          in (JoinedJson name position, save_data data'))"

definition queue_add :: "queue_id \<Rightarrow> json_body \<Rightarrow> fs \<Rightarrow> response \<times> effect list" where
  "queue_add queue_id body s =
     (let payload = payload_of body;
          name = payload ''name'' in
      if \<not> truthy name then (ErrorJson ''missing_name'' 400, [])
      else
        let data = load_data s in
        case data queue_id of
          None \<Rightarrow> (ErrorJson ''not_found'' 404, [])
        | Some q \<Rightarrow>
            let data' = data(queue_id \<mapsto> q\<lparr>users := users q @ [the name]\<rparr>)
            in (OkJson, save_data data'))"

definition queue_next :: "queue_id \<Rightarrow> string \<Rightarrow> fs \<Rightarrow> response \<times> effect list" where
  "queue_next queue_id clock s =
     (let data = load_data s;
          stats = load_stats s in
      case data queue_id of
        None \<Rightarrow> (ErrorJson ''not_found'' 404, [])
      | Some q \<Rightarrow>
          (case users q of
             [] \<Rightarrow> (RemovedJson None, [])
           | removed # rest \<Rightarrow>
               let data' = data(queue_id \<mapsto> q\<lparr>users := rest\<rparr>);
                   entry = \<lparr>user = removed, queue = queue_id, time = clock, event = None\<rparr>;
                   stats' = stats\<lparr>served_today := served_today stats + 1,
                                  history := keep_last 50 (history stats @ [entry])\<rparr>
               in (RemovedJson (Some removed), save_data data' @ save_stats stats')))"

definition queue_clear :: "queue_id \<Rightarrow> fs \<Rightarrow> response \<times> effect list" where
  "queue_clear queue_id s =
     (let data = load_data s in
      case data queue_id of
        None \<Rightarrow> (ErrorJson ''not_found'' 404, [])
      | Some q \<Rightarrow>
          let data' = data(queue_id \<mapsto> q\<lparr>users := []\<rparr>)
          in (OkJson, save_data data'))"

definition delete_queue :: "queue_id \<Rightarrow> string \<Rightarrow> fs \<Rightarrow> response \<times> effect list" where
  "delete_queue qid clock s =
     (let data = load_data s;
          stats = load_stats s in
      case data qid of
        None \<Rightarrow> (ErrorJson ''not_found'' 404, [])
      | Some q \<Rightarrow>
          let unlink = (if qr_cache s qid \<noteq> None then [UnlinkQr qid] else []);
              entry = \<lparr>user = ''-'', queue = qid, time = clock, event = Some ''Queue deleted''\<rparr>;
              stats' = stats\<lparr>history := keep_last 50 (history stats @ [entry])\<rparr>;
              data' = data(qid := None)
          in (DeletedJson (''Queue '' @ qid @ '' deleted''),
              unlink @ save_stats stats' @ save_data data'))"

definition clear_last_history :: "fs \<Rightarrow> response \<times> effect list" where
  "clear_last_history s =
     (let stats = load_stats s in
      if history stats = [] then (NoHistoryJson, [])
      else
        let last_entry = last (history stats);
            stats' = stats\<lparr>history := butlast (history stats)\<rparr>
        in (ClearedLastJson last_entry, save_stats stats'))"

definition clear_all_history :: "fs \<Rightarrow> response \<times> effect list" where
  "clear_all_history s =
     (let stats = load_stats s;
          cleared_count = length (history stats);
          stats' = stats\<lparr>history := []\<rparr>
      in (ClearedAllJson cleared_count, save_stats stats'))"

section \<open>The service as a transition system\<close>

datatype request =
    CreateQueue string real string
  | QueueQr queue_id string
  | QueueData queue_id
  | QueueJoin queue_id json_body string
  | QueueAdd queue_id json_body
  | QueueNext queue_id string
  | QueueClear queue_id
  | DeleteQueue queue_id string
  | ClearLastHistory
  | ClearAllHistory

fun handler :: "request \<Rightarrow> fs \<Rightarrow> response \<times> effect list" where
  "handler (CreateQueue uuid_hex now url_root) s = create_queue uuid_hex now url_root s"
| "handler (QueueQr queue_id url_root) s = queue_qr queue_id url_root s"
| "handler (QueueData queue_id) s = queue_data queue_id s"
| "handler (QueueJoin queue_id body uuid_hex) s = queue_join queue_id body uuid_hex s"
| "handler (QueueAdd queue_id body) s = queue_add queue_id body s"
| "handler (QueueNext queue_id clock) s = queue_next queue_id clock s"
| "handler (QueueClear queue_id) s = queue_clear queue_id s"
| "handler (DeleteQueue qid clock) s = delete_queue qid clock s"
| "handler ClearLastHistory s = clear_last_history s"
| "handler ClearAllHistory s = clear_all_history s"

text \<open>One request served to the end: the response and the file system afterwards.\<close>

definition serve :: "request \<Rightarrow> fs \<Rightarrow> response \<times> fs" where
  "serve r s = (fst (handler r s), exec (snd (handler r s)) s)"

fun run :: "request list \<Rightarrow> fs \<Rightarrow> response list \<times> fs" where
  "run [] s = ([], s)"
| "run (r # rs) s =
     (let (resp, s') = serve r s;
          (resps, s'') = run rs s'
      in (resp # resps, s''))"

definition fresh_fs :: fs where
  "fresh_fs = \<lparr>data_file = None, stats_file = None, qr_cache = Map.empty\<rparr>"

definition init_fs :: fs where
  "init_fs = exec (initialize fresh_fs) fresh_fs"

inductive reachable :: "fs \<Rightarrow> bool" where
  start: "reachable init_fs"
| restart: "reachable s \<Longrightarrow> reachable (exec (initialize s) s)"
| request: "reachable s \<Longrightarrow> reachable (snd (serve r s))"

section \<open>Vocabulary of the properties\<close>

text \<open>
  \<^verbatim>\<open>uuid.uuid4().hex\<close> is a string of 32 lower-case hexadecimal digits. Nothing more is
  assumed of it: in particular not that its first characters differ from any id in use.
\<close>

definition hex_digit :: "char \<Rightarrow> bool" where
  "hex_digit c = (c \<in> set ''0123456789abcdef'')"

definition uuid4_hex :: "string \<Rightarrow> bool" where
  "uuid4_hex u = (length u = 32 \<and> list_all hex_digit u)"

text \<open>Whether the body carries a usable name: present and not the empty string.\<close>

definition name_given :: "json_body \<Rightarrow> bool" where
  "name_given body = (payload_of body ''name'' \<noteq> None \<and> payload_of body ''name'' \<noteq> Some [])"

text \<open>
  A request that joins queue \<open>q\<close> (the public join or the admin add), and the name such a
  request appends when it succeeds on an existing queue: an add with no name appends nothing.
\<close>

fun joins_on :: "queue_id \<Rightarrow> request \<Rightarrow> bool" where
  "joins_on q (QueueJoin queue_id body uuid_hex) = (queue_id = q)"
| "joins_on q (QueueAdd queue_id body) = (queue_id = q)"
| "joins_on q r = False"

fun joined_name :: "request \<Rightarrow> string option" where
  "joined_name (QueueJoin queue_id body uuid_hex) = Some (join_name body uuid_hex)"
| "joined_name (QueueAdd queue_id body) =
     (if name_given body then payload_of body ''name'' else None)"
| "joined_name r = None"

definition joined_names :: "request list \<Rightarrow> string list" where
  "joined_names reqs = List.map_filter joined_name reqs"

text \<open>
  Which of the two documents a write persists, the documents a handler persists in program
  order, and the file system left behind when the process dies between a handler's first
  and second document write.
\<close>

datatype document = QueueStoreDoc | StatsDoc

fun doc_written :: "effect \<Rightarrow> document option" where
  "doc_written (WriteData d) = Some QueueStoreDoc"
| "doc_written (WriteStats st) = Some StatsDoc"
| "doc_written (SaveQr qid url) = None"
| "doc_written (UnlinkQr qid) = None"

definition doc_writes :: "effect list \<Rightarrow> document list" where
  "doc_writes effs = List.map_filter doc_written effs"

definition queue_store_first :: "effect list \<Rightarrow> bool" where
  "queue_store_first effs = (doc_writes effs = [QueueStoreDoc, StatsDoc])"

definition crash_between :: "effect list \<Rightarrow> fs \<Rightarrow> fs" where
  "crash_between effs s =
     exec (takeWhile (\<lambda>e. doc_written e = None) effs @
           take 1 (dropWhile (\<lambda>e. doc_written e = None) effs)) s"

text \<open>
  The two save functions with the lock written out. \<^verbatim>\<open>save_data\<close> writes inside
  \<^verbatim>\<open>with LOCK:\<close>, so it acquires the lock, writes, and releases it; \<^verbatim>\<open>save_stats\<close> calls
  \<^verbatim>\<open>write_text\<close> directly. Erasing the lock steps gives the writes of \<open>save_data\<close> and
  \<open>save_stats\<close> above.
\<close>

datatype step = Acquire | Release | Wr effect

definition save_data_steps :: "store \<Rightarrow> step list" where
  "save_data_steps data = Acquire # map Wr (save_data data) @ [Release]"

definition save_stats_steps :: "stats_rec \<Rightarrow> step list" where
  "save_stats_steps stats = map Wr (save_stats stats)"

fun erase :: "step list \<Rightarrow> effect list" where
  "erase [] = []"
| "erase (Wr e # steps) = e # erase steps"
| "erase (Acquire # steps) = erase steps"
| "erase (Release # steps) = erase steps"

text \<open>Every write of the step list happens while the lock is held (\<open>held\<close>: held on entry).\<close>

fun writes_under_lock :: "bool \<Rightarrow> step list \<Rightarrow> bool" where
  "writes_under_lock held [] = True"
| "writes_under_lock held (Acquire # steps) = writes_under_lock True steps"
| "writes_under_lock held (Release # steps) = writes_under_lock False steps"
| "writes_under_lock held (Wr e # steps) = (held \<and> writes_under_lock held steps)"

text \<open>
  Two saves running in two threads. \<^verbatim>\<open>Path.write_text\<close> opens the file for writing, which
  truncates it, and then writes the text from the start of the file through its own
  descriptor: bytes of the file beyond the written text stay as they are. The text is
  \<^verbatim>\<open>json.dumps\<close> of the document, a parameter \<open>dumps\<close> here. \<^verbatim>\<open>LOCK\<close> is one
  \<^verbatim>\<open>threading.Lock\<close>: acquiring it is possible only while no thread holds it.
\<close>

datatype file_op = Lock | Unlock | Truncate document | WriteText document string

fun ops_of_step :: "(effect \<Rightarrow> string) \<Rightarrow> step \<Rightarrow> file_op list" where
  "ops_of_step dumps Acquire = [Lock]"
| "ops_of_step dumps Release = [Unlock]"
| "ops_of_step dumps (Wr e) =
     (case doc_written e of
        Some d \<Rightarrow> [Truncate d, WriteText d (dumps e)]
      | None \<Rightarrow> [])"

definition ops_of :: "(effect \<Rightarrow> string) \<Rightarrow> step list \<Rightarrow> file_op list" where
  "ops_of dumps steps = concat (map (ops_of_step dumps) steps)"

record shared =
  content :: "document \<Rightarrow> string"
  holder :: "bool option"

text \<open>One operation of thread \<open>t\<close>; \<open>None\<close> when the thread cannot move (the lock is taken).\<close>

fun file_step :: "bool \<Rightarrow> file_op \<Rightarrow> shared \<Rightarrow> shared option" where
  "file_step t Lock s = (if holder s = None then Some (s\<lparr>holder := Some t\<rparr>) else None)"
| "file_step t Unlock s = Some (s\<lparr>holder := None\<rparr>)"
| "file_step t (Truncate d) s = Some (s\<lparr>content := (content s)(d := [])\<rparr>)"
| "file_step t (WriteText d txt) s =
     Some (s\<lparr>content := (content s)(d := txt @ drop (length txt) (content s d))\<rparr>)"

text \<open>
  A schedule names, step by step, the thread that moves next (\<open>False\<close>: the first, \<open>True\<close>:
  the second). It is a run of the two threads when it lets each finish its operations and
  never picks a thread that cannot move; then \<open>interleave\<close> gives the state at the end.
\<close>

fun interleave :: "bool list \<Rightarrow> file_op list \<Rightarrow> file_op list \<Rightarrow> shared \<Rightarrow> shared option" where
  "interleave [] [] [] s = Some s"
| "interleave (False # ts) (a # as) bs s =
     (case file_step False a s of None \<Rightarrow> None | Some s' \<Rightarrow> interleave ts as bs s')"
| "interleave (True # ts) as (b # bs) s =
     (case file_step True b s of None \<Rightarrow> None | Some s' \<Rightarrow> interleave ts as bs s')"
| "interleave ts as bs s = None"

text \<open>Concrete inputs on which the theorems below are exercised.\<close>

definition uuid_a :: string where
  "uuid_a = ''deadbeef00004000800000000000cafe''"

definition uuid_b :: string where
  "uuid_b = ''0a1b2c3d11114111911111111111f00d''"

definition named :: "string \<Rightarrow> json_body" where
  "named n = Some [''name'' \<mapsto> n]"

definition two_queues :: fs where
  "two_queues =
     \<lparr>data_file = Some [''deadbeef'' \<mapsto> \<lparr>created = 100, users = [''Alice'', ''Bob'']\<rparr>,
                        ''0a1b2c3d'' \<mapsto> \<lparr>created = 200, users = []\<rparr>],
      stats_file = Some default_stats,
      qr_cache = Map.empty\<rparr>"

definition uuid_c :: string where
  "uuid_c = ''7e57ab1e22224222a222222222222222''"

definition zoe_served :: history_rec where
  "zoe_served = \<lparr>user = ''Zoe'', queue = ''deadbeef'', time = ''08:00:00'', event = None\<rparr>"

text \<open>\<open>n\<close> rounds of adding Zoe to queue \<^verbatim>\<open>deadbeef\<close> and serving her at once.\<close>

fun serve_rounds :: "nat \<Rightarrow> request list" where
  "serve_rounds 0 = []"
| "serve_rounds (Suc n) =
     QueueAdd ''deadbeef'' (named ''Zoe'') # QueueNext ''deadbeef'' ''08:00:00'' # serve_rounds n"

definition busy_day :: fs where
  "busy_day =
     snd (run (CreateQueue uuid_a 100 ''http://localhost:5000'' # serve_rounds 50) init_fs)"

text \<open>
  Documents for two saves at once: the statistics after Alice was served from queue
  \<^verbatim>\<open>deadbeef\<close>, a store holding one empty queue, and the text \<^verbatim>\<open>json.dumps\<close> gives for these
  and for the empty store and the default statistics.
\<close>

definition alice_served_stats :: stats_rec where
  "alice_served_stats =
     \<lparr>served_today = 1,
      history = [\<lparr>user = ''Alice'', queue = ''deadbeef'', time = ''10:00:00'', event = None\<rparr>]\<rparr>"

definition one_empty_queue :: store where
  "one_empty_queue = [''deadbeef'' \<mapsto> \<lparr>created = 100, users = []\<rparr>]"

definition sample_dumps :: "effect \<Rightarrow> string" where
  \<open>sample_dumps e =
     (case e of
        WriteStats st \<Rightarrow>
          (if st = alice_served_stats then
             ''{"served_today": 1, "history": [{"user": "Alice", "queue": "deadbeef", "time": "10:00:00"}]}''
           else if st = default_stats then ''{"served_today": 0, "history": []}''
           else [])
      | WriteData data \<Rightarrow>
          (if data = Map.empty then ''{}''
           else if data = one_empty_queue then ''{"deadbeef": {"created": 100.0, "users": []}}''
           else [])
      | SaveQr qid url \<Rightarrow> []
      | UnlinkQr qid \<Rightarrow> [])\<close>

definition idle :: shared where
  "idle = \<lparr>content = (\<lambda>d. []), holder = None\<rparr>"

section \<open>Basic facts about the store\<close>

lemma exec_Nil [simp]: "exec [] s = s"
  by (simp add: exec_def)

lemma exec_Cons [simp]: "exec (e # es) s = exec es (apply_effect s e)"
  by (simp add: exec_def)

lemma exec_append [simp]: "exec (es @ es') s = exec es' (exec es s)"
  by (simp add: exec_def)

lemma load_data_update [simp]:
  "load_data (s\<lparr>data_file := Some d\<rparr>) = d"
  "load_data (s\<lparr>stats_file := x\<rparr>) = load_data s"
  "load_data (s\<lparr>qr_cache := c\<rparr>) = load_data s"
  by (simp_all add: load_data_def)

lemma load_stats_update [simp]:
  "load_stats (s\<lparr>stats_file := Some st\<rparr>) = st"
  "load_stats (s\<lparr>data_file := y\<rparr>) = load_stats s"
  "load_stats (s\<lparr>qr_cache := c\<rparr>) = load_stats s"
  by (simp_all add: load_stats_def)

lemmas handler_defs =
  create_queue_def queue_qr_def queue_data_def queue_join_def queue_add_def queue_next_def
  queue_clear_def delete_queue_def clear_last_history_def clear_all_history_def
  save_data_def save_stats_def

lemma truthy_name_given: "truthy (payload_of body ''name'') = name_given body"
  by (simp add: truthy_def name_given_def split: option.splits)

lemma length_keep_last: "length (keep_last n xs) \<le> n"
  by (simp add: keep_last_def)

lemma keep_last_short: "length xs \<le> n \<Longrightarrow> keep_last n xs = xs"
  by (simp add: keep_last_def)

lemma load_stats_initialize: "load_stats (exec (initialize s) s) = load_stats s"
  by (simp add: initialize_def save_data_def save_stats_def load_stats_def)

lemma load_data_initialize: "load_data (exec (initialize s) s) = load_data s"
  by (simp add: initialize_def save_data_def save_stats_def load_data_def)

section \<open>Single requests\<close>

lemma serve_next_empty:
  assumes "load_data s q = Some qu" and "users qu = []"
  shows "serve (QueueNext q c) s = (RemovedJson None, s)"
  using assms by (simp add: serve_def queue_next_def)

lemma serve_next_front:
  assumes "load_data s q = Some qu" and "users qu = x # xs"
  shows "fst (serve (QueueNext q c) s) = RemovedJson (Some x)"
    and "load_data (snd (serve (QueueNext q c) s)) q = Some (qu\<lparr>users := xs\<rparr>)"
  using assms by (simp_all add: serve_def queue_next_def save_data_def save_stats_def Let_def)

lemma serve_join_present:
  assumes "load_data s q = Some qu"
  shows "fst (serve (QueueJoin q body u) s) = JoinedJson (join_name body u) (Suc (length (users qu)))"
    and "load_data (snd (serve (QueueJoin q body u) s)) q =
           Some (qu\<lparr>users := users qu @ [join_name body u]\<rparr>)"
  using assms by (simp_all add: serve_def queue_join_def save_data_def Let_def)

lemma serve_join_absent:
  assumes "load_data s q = None"
  shows "serve (QueueJoin q body u) s = (ErrorJson ''not_found'' 404, s)"
  using assms by (simp add: serve_def queue_join_def)

lemma serve_add_present:
  assumes "load_data s q = Some qu" and "name_given body"
  shows "fst (serve (QueueAdd q body) s) = OkJson"
    and "load_data (snd (serve (QueueAdd q body) s)) q =
           Some (qu\<lparr>users := users qu @ [the (payload_of body ''name'')]\<rparr>)"
  using assms by (simp_all add: serve_def queue_add_def save_data_def Let_def truthy_name_given)

lemma serve_add_missing_name:
  assumes "\<not> name_given body"
  shows "serve (QueueAdd q body) s = (ErrorJson ''missing_name'' 400, s)"
  using assms by (simp add: serve_def queue_add_def Let_def truthy_name_given)

lemma serve_add_absent:
  assumes "name_given body" and "load_data s q = None"
  shows "serve (QueueAdd q body) s = (ErrorJson ''not_found'' 404, s)"
  using assms by (simp add: serve_def queue_add_def Let_def truthy_name_given)

lemma serve_clear_present:
  assumes "load_data s q = Some qu"
  shows "fst (serve (QueueClear q) s) = OkJson"
    and "load_data (snd (serve (QueueClear q) s)) = (load_data s)(q \<mapsto> qu\<lparr>users := []\<rparr>)"
    and "snd (serve (QueueClear q) s) = s\<lparr>data_file := Some ((load_data s)(q \<mapsto> qu\<lparr>users := []\<rparr>))\<rparr>"
  using assms by (simp_all add: serve_def queue_clear_def save_data_def Let_def)

lemma other_queues_kept:
  assumes "q' \<noteq> q"
  shows "load_data (snd (serve (QueueJoin q body u) s)) q' = load_data s q'"
    and "load_data (snd (serve (QueueAdd q body) s)) q' = load_data s q'"
    and "load_data (snd (serve (QueueNext q c) s)) q' = load_data s q'"
    and "load_data (snd (serve (QueueClear q) s)) q' = load_data s q'"
    and "load_data (snd (serve (DeleteQueue q c) s)) q' = load_data s q'"
  using assms
  by (simp_all add: serve_def handler_defs Let_def split: option.splits list.splits)

section \<open>History bound\<close>

lemma history_bound_step:
  assumes "length (history (load_stats s)) \<le> 50"
  shows "length (history (load_stats (snd (serve r s)))) \<le> 50"
proof (cases r)
  case (QueueNext q c)
  then show ?thesis using assms
    by (simp add: serve_def handler_defs Let_def length_keep_last split: option.splits list.splits)
next
  case (DeleteQueue q c)
  then show ?thesis using assms
    by (simp add: serve_def handler_defs Let_def length_keep_last split: option.splits)
next
  case ClearLastHistory
  have "length (butlast (history (load_stats s))) \<le> 50"
    using assms by simp
  with ClearLastHistory assms show ?thesis
    by (simp add: serve_def handler_defs Let_def del: length_butlast)
next
  case ClearAllHistory
  then show ?thesis
    by (simp add: serve_def handler_defs Let_def)
qed (use assms in \<open>simp_all add: serve_def handler_defs Let_def split: option.splits\<close>)

lemma reachable_history_bound:
  assumes "reachable s"
  shows "length (history (load_stats s)) \<le> 50"
  using assms
proof (induction rule: reachable.induct)
  case start
  show ?case
    by (simp add: init_fs_def fresh_fs_def initialize_def save_data_def save_stats_def
        default_stats_def load_stats_def)
next
  case (restart s)
  then show ?case by (simp add: load_stats_initialize)
next
  case (request s r)
  from request.IH show ?case by (rule history_bound_step)
qed

section \<open>Sequences of requests\<close>

lemma run_append:
  "run (rs @ rs') s =
     (fst (run rs s) @ fst (run rs' (snd (run rs s))), snd (run rs' (snd (run rs s))))"
  by (induction rs arbitrary: s) (simp_all add: case_prod_beta Let_def)

lemma reachable_run: "reachable s \<Longrightarrow> reachable (snd (run rs s))"
  by (induction rs arbitrary: s) (simp_all add: case_prod_beta Let_def reachable.request)

lemma run_joins:
  assumes "load_data s q = Some qu" and "\<forall>r\<in>set reqs. joins_on q r"
  shows "load_data (snd (run reqs s)) q = Some (qu\<lparr>users := users qu @ joined_names reqs\<rparr>)"
  using assms
proof (induction reqs arbitrary: s qu)
  case Nil
  then show ?case by (simp add: joined_names_def )
next
  case (Cons r reqs)
  from Cons.prems(2) have on: "joins_on q r" and rest: "\<forall>r\<in>set reqs. joins_on q r"
    by simp_all
  show ?case
  proof (cases r)
    case (QueueJoin q0 body uuid_hex)
    with on have r: "r = QueueJoin q body uuid_hex" by simp
    have "load_data (snd (serve r s)) q = Some (qu\<lparr>users := users qu @ [join_name body uuid_hex]\<rparr>)"
      unfolding r using Cons.prems(1) by (rule serve_join_present)
    from Cons.IH [OF this rest] show ?thesis
      by (simp add: case_prod_beta Let_def joined_names_def r)
  next
    case (QueueAdd q0 body)
    with on have r: "r = QueueAdd q body" by simp
    show ?thesis
    proof (cases "name_given body")
      case True
      then obtain n where n: "payload_of body ''name'' = Some n"
        by (auto simp add: name_given_def)
      have "load_data (snd (serve r s)) q =
              Some (qu\<lparr>users := users qu @ [the (payload_of body ''name'')]\<rparr>)"
        unfolding r using Cons.prems(1) True by (rule serve_add_present)
      from Cons.IH [OF this rest] True n show ?thesis
        by (simp add: case_prod_beta Let_def joined_names_def r)
    next
      case False
      then have "snd (serve r s) = s"
        unfolding r by (simp add: serve_add_missing_name)
      with Cons.IH [OF Cons.prems(1) rest] False show ?thesis
        by (simp add: case_prod_beta Let_def joined_names_def r)
    qed
  qed (use on in simp_all)
qed

lemma run_nexts:
  assumes "load_data s q = Some qu" and "length clocks \<le> length (users qu)"
  shows "fst (run (map (QueueNext q) clocks) s) =
           map (\<lambda>n. RemovedJson (Some n)) (take (length clocks) (users qu))
         \<and> load_data (snd (run (map (QueueNext q) clocks) s)) q =
           Some (qu\<lparr>users := drop (length clocks) (users qu)\<rparr>)"
  using assms
proof (induction clocks arbitrary: s qu)
  case Nil
  then show ?case by simp
next
  case (Cons c clocks)
  then obtain x xs where us: "users qu = x # xs"
    by (cases "users qu") simp_all
  note front = serve_next_front [OF Cons.prems(1) us, of c]
  from Cons.prems(2) us have "length clocks \<le> length (users (qu\<lparr>users := xs\<rparr>))"
    by simp
  from Cons.IH [OF front(2) this] front(1) us show ?case
    by (simp add: case_prod_beta Let_def)
qed


section \<open>Concrete states\<close>

lemma load_data_two_queues:
  "load_data two_queues =
     [''deadbeef'' \<mapsto> \<lparr>created = 100, users = [''Alice'', ''Bob'']\<rparr>,
      ''0a1b2c3d'' \<mapsto> \<lparr>created = 200, users = []\<rparr>]"
  by (simp add: two_queues_def load_data_def)

lemma load_stats_two_queues: "load_stats two_queues = default_stats"
  by (simp add: two_queues_def load_stats_def)

lemma uuid4_hex_examples: "uuid4_hex uuid_a" "uuid4_hex uuid_b"
  by (simp_all add: uuid4_hex_def uuid_a_def uuid_b_def hex_digit_def)

lemma join_name_named: "n \<noteq> [] \<Longrightarrow> join_name (named n) u = n"
  by (simp add: join_name_def named_def payload_of_def truthy_def)

lemma join_name_None: "join_name None u = ''User_'' @ take 6 u"
  by (simp add: join_name_def payload_of_def truthy_def)

lemma name_given_named: "name_given (named n) = (n \<noteq> [])"
  by (simp add: name_given_def named_def payload_of_def)

lemma name_given_None: "\<not> name_given None"
  by (simp add: name_given_def payload_of_def)

lemma payload_named: "payload_of (named n) ''name'' = Some n"
  by (simp add: named_def payload_of_def)

section \<open>Serving an empty queue\<close>

text \<open>
  Claim C4. For an existing queue id whose \<open>users\<close> list is empty, \<open>queue_next\<close> answers
  \<^verbatim>\<open>{"removed": null}\<close> and writes nothing: the file system after the request is the file
  system before it, so the queue store, the \<open>served_today\<close> counter and the history are the
  same before and after.
\<close>

theorem serve_next_on_empty_queue:
  assumes "load_data s q = Some qu" and "users qu = []"
  shows "serve (QueueNext q c) s = (RemovedJson None, s)
       \<and> load_data (snd (serve (QueueNext q c) s)) = load_data s
       \<and> served_today (load_stats (snd (serve (QueueNext q c) s))) = served_today (load_stats s)
       \<and> history (load_stats (snd (serve (QueueNext q c) s))) = history (load_stats s)"
  using serve_next_empty [OF assms, of c] by simp

theorem serve_next_on_empty_queue_witness:
  "load_data two_queues ''0a1b2c3d'' = Some \<lparr>created = 200, users = []\<rparr>
   \<and> serve (QueueNext ''0a1b2c3d'' ''10:00:00'') two_queues = (RemovedJson None, two_queues)"
  using serve_next_on_empty_queue
    [of two_queues "''0a1b2c3d''" "\<lparr>created = 200, users = []\<rparr>" "''10:00:00''"]
  by (simp add: load_data_two_queues)

section \<open>Clearing a queue twice\<close>

text \<open>
  Claim C8. For an existing queue id, two \<open>queue_clear\<close> requests in a row both answer
  \<^verbatim>\<open>{"ok": true}\<close>, the queue's \<open>users\<close> list is empty after the first and after the second,
  and the second leaves the file system as the first left it.
\<close>

theorem queue_clear_twice:
  assumes "load_data s q = Some qu"
  shows "fst (run [QueueClear q, QueueClear q] s) = [OkJson, OkJson]
       \<and> map_option users (load_data (snd (run [QueueClear q] s)) q) = Some []
       \<and> map_option users (load_data (snd (run [QueueClear q, QueueClear q] s)) q) = Some []
       \<and> snd (run [QueueClear q, QueueClear q] s) = snd (run [QueueClear q] s)"
proof -
  let ?s1 = "snd (serve (QueueClear q) s)"
  note first = serve_clear_present [OF assms]
  have present: "load_data ?s1 q = Some (qu\<lparr>users := []\<rparr>)"
    by (simp add: first(2))
  note second = serve_clear_present [OF present]
  have "snd (serve (QueueClear q) ?s1) =
          ?s1\<lparr>data_file := Some ((load_data ?s1)(q \<mapsto> qu\<lparr>users := []\<rparr>\<lparr>users := []\<rparr>))\<rparr>"
    by (rule second(3))
  also have "\<dots> = ?s1"
    by (simp add: first(2)) (simp add: first(3))
  finally have "snd (serve (QueueClear q) ?s1) = ?s1" .
  with first second present show ?thesis
    by (simp add: case_prod_beta Let_def)
qed

theorem queue_clear_twice_witness:
  "fst (run [QueueClear ''deadbeef'', QueueClear ''deadbeef''] two_queues) = [OkJson, OkJson]
   \<and> map_option users (load_data (snd (run [QueueClear ''deadbeef''] two_queues)) ''deadbeef'') = Some []
   \<and> map_option users
       (load_data (snd (run [QueueClear ''deadbeef'', QueueClear ''deadbeef''] two_queues)) ''deadbeef'')
     = Some []"
  using queue_clear_twice
    [of two_queues "''deadbeef''" "\<lparr>created = 100, users = [''Alice'', ''Bob'']\<rparr>"]
  by (simp add: load_data_two_queues)

section \<open>Admin add\<close>

text \<open>
  Claim C7. \<open>queue_add\<close> answers \<^verbatim>\<open>missing_name\<close> (400) exactly when the body carries no
  name or an empty one; it answers \<^verbatim>\<open>not_found\<close> (404) exactly when a name is given and the
  queue id is absent; otherwise it answers ok and the name is appended to the end of the
  queue's \<open>users\<close> list. Whenever the answer is not ok the file system is unchanged.
\<close>

theorem queue_add_outcomes:
  "(fst (serve (QueueAdd q body) s) = ErrorJson ''missing_name'' 400 \<longleftrightarrow> \<not> name_given body)
   \<and> (fst (serve (QueueAdd q body) s) = ErrorJson ''not_found'' 404
        \<longleftrightarrow> name_given body \<and> load_data s q = None)
   \<and> (\<forall>qu. name_given body \<and> load_data s q = Some qu \<longrightarrow>
          fst (serve (QueueAdd q body) s) = OkJson
        \<and> payload_of body ''name'' \<noteq> None
        \<and> load_data (snd (serve (QueueAdd q body) s)) q =
            Some (qu\<lparr>users := users qu @ [the (payload_of body ''name'')]\<rparr>))
   \<and> (fst (serve (QueueAdd q body) s) \<noteq> OkJson \<longrightarrow> snd (serve (QueueAdd q body) s) = s)"
proof (cases "name_given body")
  case False
  then show ?thesis
    by (simp add: serve_add_missing_name)
next
  case True
  show ?thesis
  proof (cases "load_data s q")
    case None
    with True show ?thesis
      by (simp add: serve_add_absent)
  next
    case (Some qu)
    from serve_add_present [OF Some True] True Some show ?thesis
      by (simp add: name_given_def)
  qed
qed

theorem queue_add_outcomes_witness:
  "serve (QueueAdd ''deadbeef'' None) two_queues = (ErrorJson ''missing_name'' 400, two_queues)
   \<and> serve (QueueAdd ''deadbeef'' (named [])) two_queues = (ErrorJson ''missing_name'' 400, two_queues)
   \<and> serve (QueueAdd ''ffffffff'' (named ''Carol'')) two_queues = (ErrorJson ''not_found'' 404, two_queues)
   \<and> fst (serve (QueueAdd ''deadbeef'' (named ''Carol'')) two_queues) = OkJson
   \<and> map_option users (load_data (snd (serve (QueueAdd ''deadbeef'' (named ''Carol'')) two_queues)) ''deadbeef'')
       = Some [''Alice'', ''Bob'', ''Carol'']"
  using queue_add_outcomes [of "''deadbeef''" None two_queues]
    queue_add_outcomes [of "''deadbeef''" "named []" two_queues]
    queue_add_outcomes [of "''ffffffff''" "named ''Carol''" two_queues]
    queue_add_outcomes [of "''deadbeef''" "named ''Carol''" two_queues]
  by (simp add: load_data_two_queues name_given_named name_given_None payload_named prod_eq_iff)

section \<open>Other queues are untouched\<close>

text \<open>
  Claim C10. A join, add, serve-next, clear or delete request on queue \<open>q\<close> rewrites the whole
  document, yet every other id \<open>q'\<close> maps to the same thing afterwards as before: the same
  \<open>created\<close> timestamp and \<open>users\<close> list when it was present, still absent when it was not.
\<close>

theorem other_queues_unchanged:
  assumes "q' \<noteq> q"
  shows "load_data (snd (serve (QueueJoin q body u) s)) q' = load_data s q'
       \<and> load_data (snd (serve (QueueAdd q body) s)) q' = load_data s q'
       \<and> load_data (snd (serve (QueueNext q c) s)) q' = load_data s q'
       \<and> load_data (snd (serve (QueueClear q) s)) q' = load_data s q'
       \<and> load_data (snd (serve (DeleteQueue q c) s)) q' = load_data s q'"
  using other_queues_kept [OF assms] by simp

theorem other_queues_unchanged_witness:
  "load_data (snd (serve (QueueJoin ''0a1b2c3d'' (named ''Carol'') uuid_a) two_queues)) ''deadbeef''
     = Some \<lparr>created = 100, users = [''Alice'', ''Bob'']\<rparr>
   \<and> load_data (snd (serve (QueueAdd ''0a1b2c3d'' (named ''Carol'')) two_queues)) ''deadbeef''
     = Some \<lparr>created = 100, users = [''Alice'', ''Bob'']\<rparr>
   \<and> load_data (snd (serve (QueueNext ''0a1b2c3d'' ''10:00:00'') two_queues)) ''deadbeef''
     = Some \<lparr>created = 100, users = [''Alice'', ''Bob'']\<rparr>
   \<and> load_data (snd (serve (QueueClear ''0a1b2c3d'') two_queues)) ''deadbeef''
     = Some \<lparr>created = 100, users = [''Alice'', ''Bob'']\<rparr>
   \<and> load_data (snd (serve (DeleteQueue ''0a1b2c3d'' ''10:00:00'') two_queues)) ''deadbeef''
     = Some \<lparr>created = 100, users = [''Alice'', ''Bob'']\<rparr>"
  using other_queues_unchanged
    [of "''deadbeef''" "''0a1b2c3d''" "named ''Carol''" uuid_a two_queues "''10:00:00''"]
  by (simp add: load_data_two_queues)

section \<open>Joining a queue\<close>

lemma join_name_given: "name_given body \<Longrightarrow> Some (join_name body u) = payload_of body ''name''"
  by (auto simp add: join_name_def truthy_name_given name_given_def)

lemma join_name_default: "\<not> name_given body \<Longrightarrow> join_name body u = ''User_'' @ take 6 u"
  by (simp add: join_name_def truthy_name_given)

lemma uuid4_hex_take:
  assumes "uuid4_hex u" and "n \<le> 32"
  shows "length (take n u) = n" and "list_all hex_digit (take n u)"
  using assms by (auto simp add: uuid4_hex_def list_all_iff dest: in_set_takeD)

lemma take_uuid_b: "take 6 uuid_b = ''0a1b2c''" "take 8 uuid_b = ''0a1b2c3d''"
  by (simp_all add: uuid_b_def)

lemma take_uuid_a: "take 6 uuid_a = ''deadbe''" "take 8 uuid_a = ''deadbeef''"
  by (simp_all add: uuid_a_def)

text \<open>
  Claim C5. For an existing queue id, \<open>queue_join\<close> appends a name to the end of the queue's
  \<open>users\<close> list and answers with that name and a position equal to the new length of the
  list (the old length plus one). The name is the one given in the body when there is a
  non-empty one; with an empty or missing name it is \<^verbatim>\<open>User_\<close> followed by six hexadecimal
  digits, the first six of the UUID. For an absent id the answer is \<^verbatim>\<open>not_found\<close> (404) and
  nothing is written.
\<close>

theorem queue_join_name_and_position:
  assumes "uuid4_hex u"
  shows "(load_data s q = None \<longrightarrow> serve (QueueJoin q body u) s = (ErrorJson ''not_found'' 404, s))
       \<and> (\<forall>qu. load_data s q = Some qu \<longrightarrow>
             fst (serve (QueueJoin q body u) s) =
               JoinedJson (join_name body u) (length (users qu @ [join_name body u]))
           \<and> load_data (snd (serve (QueueJoin q body u) s)) q =
               Some (qu\<lparr>users := users qu @ [join_name body u]\<rparr>)
           \<and> length (users qu @ [join_name body u]) = length (users qu) + 1)
       \<and> (name_given body \<longrightarrow> Some (join_name body u) = payload_of body ''name'')
       \<and> (\<not> name_given body \<longrightarrow>
             (\<exists>h. join_name body u = ''User_'' @ h \<and> length h = 6 \<and> list_all hex_digit h))"
proof -
  have "\<exists>h. join_name body u = ''User_'' @ h \<and> length h = 6 \<and> list_all hex_digit h"
    if "\<not> name_given body"
    using join_name_default [OF that, of u] uuid4_hex_take [OF assms, of 6] by simp
  then show ?thesis
    by (simp add: serve_join_absent serve_join_present join_name_given)
qed

theorem queue_join_name_and_position_witness:
  "uuid4_hex uuid_b
   \<and> serve (QueueJoin ''ffffffff'' None uuid_b) two_queues = (ErrorJson ''not_found'' 404, two_queues)
   \<and> fst (serve (QueueJoin ''deadbeef'' None uuid_b) two_queues) = JoinedJson ''User_0a1b2c'' 3
   \<and> map_option users (load_data (snd (serve (QueueJoin ''deadbeef'' None uuid_b) two_queues)) ''deadbeef'')
       = Some [''Alice'', ''Bob'', ''User_0a1b2c'']
   \<and> fst (serve (QueueJoin ''0a1b2c3d'' (named ''Carol'') uuid_b) two_queues) = JoinedJson ''Carol'' 1"
  using queue_join_name_and_position [OF uuid4_hex_examples(2), of two_queues "''ffffffff''" None]
    queue_join_name_and_position [OF uuid4_hex_examples(2), of two_queues "''deadbeef''" None]
    queue_join_name_and_position [OF uuid4_hex_examples(2), of two_queues "''0a1b2c3d''" "named ''Carol''"]
  by (simp add: load_data_two_queues uuid4_hex_examples join_name_None join_name_named take_uuid_b)

section \<open>First in, first out\<close>

text \<open>
  Claim C1. Take a queue \<open>q\<close> that is present with an empty \<open>users\<close> list, and any sequence of
  join and add requests on it. Serving \<open>q\<close> once per appended name then returns exactly the
  appended names, in the order of the requests that appended them, and leaves the queue
  empty. And whatever the state, a serve-next on a non-empty queue returns the front element
  of \<open>users\<close> and leaves the rest of the list in its order.
\<close>

theorem serve_next_fifo:
  assumes "load_data s q = Some qu" and "users qu = []"
    and "\<forall>r\<in>set reqs. joins_on q r"
    and "length clocks = length (joined_names reqs)"
  shows "fst (run (map (QueueNext q) clocks) (snd (run reqs s))) =
           map (\<lambda>n. RemovedJson (Some n)) (joined_names reqs)
       \<and> map_option users (load_data (snd (run (map (QueueNext q) clocks) (snd (run reqs s)))) q)
           = Some []
       \<and> (\<forall>t qt x xs c. load_data t q = Some qt \<and> users qt = x # xs \<longrightarrow>
             fst (serve (QueueNext q c) t) = RemovedJson (Some x)
           \<and> map_option users (load_data (snd (serve (QueueNext q c) t)) q) = Some xs)"
proof -
  let ?joined = "qu\<lparr>users := users qu @ joined_names reqs\<rparr>"
  have joined: "load_data (snd (run reqs s)) q = Some ?joined"
    using assms(1,3) by (rule run_joins)
  have "length clocks \<le> length (users ?joined)"
    using assms(4) by simp
  from run_nexts [OF joined this] assms(2,4) show ?thesis
    by (simp add: serve_next_front)
qed

theorem serve_next_fifo_witness:
  "fst (run (map (QueueNext ''0a1b2c3d'') [''09:00:00'', ''09:00:05'', ''09:00:09''])
          (snd (run [QueueJoin ''0a1b2c3d'' (named ''Carol'') uuid_a,
                     QueueAdd ''0a1b2c3d'' None,
                     QueueJoin ''0a1b2c3d'' None uuid_b,
                     QueueAdd ''0a1b2c3d'' (named ''Dave'')] two_queues)))
     = [RemovedJson (Some ''Carol''), RemovedJson (Some ''User_0a1b2c''), RemovedJson (Some ''Dave'')]"
  using serve_next_fifo
    [of two_queues "''0a1b2c3d''" "\<lparr>created = 200, users = []\<rparr>"
        "[QueueJoin ''0a1b2c3d'' (named ''Carol'') uuid_a,
          QueueAdd ''0a1b2c3d'' None,
          QueueJoin ''0a1b2c3d'' None uuid_b,
          QueueAdd ''0a1b2c3d'' (named ''Dave'')]"
        "[''09:00:00'', ''09:00:05'', ''09:00:09'']"]
  by (simp add: load_data_two_queues joined_names_def join_name_None join_name_named
      name_given_named name_given_None payload_named take_uuid_b)

lemma take_uuid_c: "take 8 uuid_c = ''7e57ab1e''"
  by (simp add: uuid_c_def)

lemma uuid4_hex_uuid_c: "uuid4_hex uuid_c"
  by (simp add: uuid4_hex_def uuid_c_def hex_digit_def)

section \<open>Creating a queue\<close>

lemma serve_create:
  "fst (serve (CreateQueue u now url_root) s) =
     CreatedJson (take 8 u) (join_queue_url url_root (take 8 u))"
  "load_data (snd (serve (CreateQueue u now url_root) s)) =
     (load_data s)(take 8 u \<mapsto> \<lparr>created = now, users = []\<rparr>)"
  by (simp_all add: serve_def create_queue_def save_data_def Let_def)

text \<open>
  Claim C2, as the code has it. \<open>create_queue\<close> takes the first eight hexadecimal digits of
  a random UUID as the id and does not look whether the id is in use. It returns that id,
  and stores \<^verbatim>\<open>{"created": now, "users": []}\<close> under it, so the new queue always starts with
  an empty \<open>users\<close> list; every other id keeps its queue. Hence no live queue is overwritten
  whenever the generated id is not already in the store.
\<close>

theorem create_queue_inserts_empty_queue:
  assumes "uuid4_hex u"
  shows "fst (serve (CreateQueue u now url_root) s) =
           CreatedJson (take 8 u) (join_queue_url url_root (take 8 u))
       \<and> length (take 8 u) = 8 \<and> list_all hex_digit (take 8 u)
       \<and> load_data (snd (serve (CreateQueue u now url_root) s)) (take 8 u) =
           Some \<lparr>created = now, users = []\<rparr>
       \<and> (\<forall>q'. q' \<noteq> take 8 u \<longrightarrow>
             load_data (snd (serve (CreateQueue u now url_root) s)) q' = load_data s q')
       \<and> (take 8 u \<notin> dom (load_data s) \<longrightarrow>
             (\<forall>q'\<in>dom (load_data s).
                load_data (snd (serve (CreateQueue u now url_root) s)) q' = load_data s q'))"
proof -
  have "length (take 8 u) = 8" and "list_all hex_digit (take 8 u)"
    using uuid4_hex_take [OF assms, of 8] by simp_all
  then show ?thesis
    by (auto simp add: serve_create)
qed

theorem create_queue_inserts_empty_queue_witness:
  "uuid4_hex uuid_c
   \<and> ''7e57ab1e'' \<notin> dom (load_data two_queues)
   \<and> fst (serve (CreateQueue uuid_c 300 ''http://localhost:5000'') two_queues) =
       CreatedJson ''7e57ab1e'' ''http://localhost:5000/queue/7e57ab1e''
   \<and> load_data (snd (serve (CreateQueue uuid_c 300 ''http://localhost:5000'') two_queues)) =
       [''deadbeef'' \<mapsto> \<lparr>created = 100, users = [''Alice'', ''Bob'']\<rparr>,
        ''0a1b2c3d'' \<mapsto> \<lparr>created = 200, users = []\<rparr>,
        ''7e57ab1e'' \<mapsto> \<lparr>created = 300, users = []\<rparr>]"
proof -
  note inst = create_queue_inserts_empty_queue
    [OF uuid4_hex_uuid_c, of 300 "''http://localhost:5000''" two_queues]
  have "load_data (snd (serve (CreateQueue uuid_c 300 ''http://localhost:5000'') two_queues)) q =
        [''deadbeef'' \<mapsto> \<lparr>created = 100, users = [''Alice'', ''Bob'']\<rparr>,
         ''0a1b2c3d'' \<mapsto> \<lparr>created = 200, users = []\<rparr>,
         ''7e57ab1e'' \<mapsto> \<lparr>created = 300, users = []\<rparr>] q" for q
    using inst by (cases "q = ''7e57ab1e''") (simp_all add: take_uuid_c load_data_two_queues)
  then have "load_data (snd (serve (CreateQueue uuid_c 300 ''http://localhost:5000'') two_queues)) =
        [''deadbeef'' \<mapsto> \<lparr>created = 100, users = [''Alice'', ''Bob'']\<rparr>,
         ''0a1b2c3d'' \<mapsto> \<lparr>created = 200, users = []\<rparr>,
         ''7e57ab1e'' \<mapsto> \<lparr>created = 300, users = []\<rparr>]"
    by (rule ext)
  with inst show ?thesis
    by (simp add: uuid4_hex_uuid_c take_uuid_c load_data_two_queues join_queue_url_def)
qed

text \<open>
  The claim as the specification words it fails: with queue \<^verbatim>\<open>deadbeef\<close> live and holding
  Alice and Bob, a UUID that starts with \<^verbatim>\<open>deadbeef\<close> makes \<open>create_queue\<close> return the id of
  that live queue and replace it by an empty one.
\<close>

theorem create_queue_collision_counterexample:
  "\<not> (take 8 uuid_a \<notin> dom (load_data two_queues))
   \<and> fst (serve (CreateQueue uuid_a 300 ''http://localhost:5000'') two_queues) =
       CreatedJson ''deadbeef'' ''http://localhost:5000/queue/deadbeef''
   \<and> load_data two_queues ''deadbeef'' = Some \<lparr>created = 100, users = [''Alice'', ''Bob'']\<rparr>
   \<and> load_data (snd (serve (CreateQueue uuid_a 300 ''http://localhost:5000'') two_queues)) ''deadbeef''
       = Some \<lparr>created = 300, users = []\<rparr>"
  by (simp add: serve_create take_uuid_a load_data_two_queues join_queue_url_def)

section \<open>Order of the two writes\<close>

lemma doc_writes_simps [simp]:
  "doc_writes [] = []"
  "doc_writes (e # es) = (case doc_written e of None \<Rightarrow> doc_writes es | Some d \<Rightarrow> d # doc_writes es)"
  unfolding doc_writes_def by simp_all

lemma queue_next_effects:
  assumes "load_data s q = Some qu" and "users qu = x # xs"
  shows "snd (queue_next q c s) =
           [WriteData ((load_data s)(q \<mapsto> qu\<lparr>users := xs\<rparr>)),
            WriteStats ((load_stats s)
              \<lparr>served_today := served_today (load_stats s) + 1,
               history := keep_last 50 (history (load_stats s) @
                            [\<lparr>user = x, queue = q, time = c, event = None\<rparr>])\<rparr>)]"
  using assms by (simp add: queue_next_def save_data_def save_stats_def Let_def)

lemma delete_queue_effects:
  assumes "load_data s q = Some qu"
  shows "snd (delete_queue q c s) =
           (if qr_cache s q \<noteq> None then [UnlinkQr q] else []) @
           [WriteStats ((load_stats s)
              \<lparr>history := keep_last 50 (history (load_stats s) @
                 [\<lparr>user = ''-'', queue = q, time = c, event = Some ''Queue deleted''\<rparr>])\<rparr>),
            WriteData ((load_data s)(q := None))]"
  using assms by (simp add: delete_queue_def save_data_def save_stats_def Let_def)

text \<open>
  Claim C6, as the code has it. \<open>queue_next\<close> on a non-empty queue persists the queue store
  first and the statistics second: if the process dies between the two writes the queue
  store is already in its final state and only the statistics entry is lost.
  \<open>delete_queue\<close> persists in the other order, the statistics first and the queue store
  second: if the process dies between its two writes the deletion is already logged in the
  history while the queue store is unchanged and still holds the queue.
\<close>

theorem document_write_order:
  assumes "load_data s q = Some qu"
  shows "(users qu \<noteq> [] \<longrightarrow>
            doc_writes (snd (queue_next q c s)) = [QueueStoreDoc, StatsDoc]
          \<and> load_data (crash_between (snd (queue_next q c s)) s) =
              load_data (snd (serve (QueueNext q c) s))
          \<and> load_stats (crash_between (snd (queue_next q c s)) s) = load_stats s)
       \<and> doc_writes (snd (delete_queue q c s)) = [StatsDoc, QueueStoreDoc]
       \<and> load_stats (crash_between (snd (delete_queue q c s)) s) =
           load_stats (snd (serve (DeleteQueue q c) s))
       \<and> load_data (crash_between (snd (delete_queue q c s)) s) = load_data s"
proof -
  have "doc_writes (snd (queue_next q c s)) = [QueueStoreDoc, StatsDoc]
      \<and> load_data (crash_between (snd (queue_next q c s)) s) =
          load_data (snd (serve (QueueNext q c) s))
      \<and> load_stats (crash_between (snd (queue_next q c s)) s) = load_stats s"
    if "users qu = x # xs" for x xs
    by (simp add: queue_next_effects [OF assms that] crash_between_def serve_def)
  moreover have "doc_writes (snd (delete_queue q c s)) = [StatsDoc, QueueStoreDoc]
      \<and> load_stats (crash_between (snd (delete_queue q c s)) s) =
          load_stats (snd (serve (DeleteQueue q c) s))
      \<and> load_data (crash_between (snd (delete_queue q c s)) s) = load_data s"
    by (simp add: delete_queue_effects [OF assms] crash_between_def serve_def)
  ultimately show ?thesis
    by (cases "users qu") simp_all
qed

theorem document_write_order_witness:
  "doc_writes (snd (queue_next ''deadbeef'' ''10:00:00'' two_queues)) = [QueueStoreDoc, StatsDoc]
   \<and> map_option users
       (load_data (crash_between (snd (queue_next ''deadbeef'' ''10:00:00'' two_queues)) two_queues)
          ''deadbeef'') = Some [''Bob'']
   \<and> history (load_stats
       (crash_between (snd (queue_next ''deadbeef'' ''10:00:00'' two_queues)) two_queues)) = []
   \<and> doc_writes (snd (delete_queue ''deadbeef'' ''10:00:00'' two_queues)) = [StatsDoc, QueueStoreDoc]"
  using document_write_order
    [of two_queues "''deadbeef''" "\<lparr>created = 100, users = [''Alice'', ''Bob'']\<rparr>" "''10:00:00''"]
    serve_next_front(2)
    [of two_queues "''deadbeef''" "\<lparr>created = 100, users = [''Alice'', ''Bob'']\<rparr>" "''Alice''"
        "[''Bob'']" "''10:00:00''"]
  by (simp add: load_data_two_queues load_stats_two_queues default_stats_def)

text \<open>
  The claim as the specification words it fails for \<open>delete_queue\<close>: on a live queue its
  document writes are not "queue store, then statistics", and the state left by a crash
  between them still holds the queue while the history already has the deletion entry.
\<close>

theorem delete_queue_order_counterexample:
  "\<not> queue_store_first (snd (delete_queue ''deadbeef'' ''10:00:00'' two_queues))
   \<and> load_data (crash_between (snd (delete_queue ''deadbeef'' ''10:00:00'' two_queues)) two_queues)
       ''deadbeef'' = Some \<lparr>created = 100, users = [''Alice'', ''Bob'']\<rparr>
   \<and> history (load_stats
       (crash_between (snd (delete_queue ''deadbeef'' ''10:00:00'' two_queues)) two_queues)) =
       [\<lparr>user = ''-'', queue = ''deadbeef'', time = ''10:00:00'', event = Some ''Queue deleted''\<rparr>]"
proof -
  have present: "load_data two_queues ''deadbeef'' = Some \<lparr>created = 100, users = [''Alice'', ''Bob'']\<rparr>"
    by (simp add: load_data_two_queues)
  have no_png: "qr_cache two_queues ''deadbeef'' = None"
    by (simp add: two_queues_def)
  show ?thesis
    by (simp add: delete_queue_effects [OF present] no_png queue_store_first_def crash_between_def
        load_data_two_queues load_stats_two_queues default_stats_def keep_last_def)
qed

section \<open>The history ledger\<close>

lemma serve_next_stats:
  assumes "load_data s q = Some qu" and "users qu = x # xs"
  shows "load_stats (snd (serve (QueueNext q c) s)) =
           (load_stats s)
             \<lparr>served_today := served_today (load_stats s) + 1,
              history := keep_last 50 (history (load_stats s) @
                           [\<lparr>user = x, queue = q, time = c, event = None\<rparr>])\<rparr>"
  by (simp add: serve_def queue_next_effects [OF assms])

lemma serve_delete_stats:
  assumes "load_data s q = Some qu"
  shows "load_stats (snd (serve (DeleteQueue q c) s)) =
           (load_stats s)
             \<lparr>history := keep_last 50 (history (load_stats s) @
                 [\<lparr>user = ''-'', queue = q, time = c, event = Some ''Queue deleted''\<rparr>])\<rparr>"
  by (simp add: serve_def delete_queue_effects [OF assms])

lemma serve_clear_last_history:
  "history (load_stats (snd (serve ClearLastHistory s))) = butlast (history (load_stats s))"
  by (simp add: serve_def clear_last_history_def save_stats_def Let_def)

lemma serve_clear_all_history:
  "history (load_stats (snd (serve ClearAllHistory s))) = []"
  by (simp add: serve_def clear_all_history_def save_stats_def Let_def)

lemma serve_add_stats: "load_stats (snd (serve (QueueAdd q body) s)) = load_stats s"
  by (simp add: serve_def queue_add_def save_data_def Let_def split: option.splits)

lemma serve_create_stats: "load_stats (snd (serve (CreateQueue u now url_root) s)) = load_stats s"
  by (simp add: serve_def create_queue_def save_data_def Let_def)

lemma keep_last_snoc: "keep_last 50 (h @ [e]) = drop (Suc (length h) - 50) (h @ [e])"
  by (simp add: keep_last_def)

lemma serve_rounds_history:
  assumes "load_data s ''deadbeef'' = Some qu" and "users qu = []"
    and "length (history (load_stats s)) + n \<le> 50"
  shows "load_data (snd (run (serve_rounds n) s)) ''deadbeef'' = Some qu
       \<and> history (load_stats (snd (run (serve_rounds n) s))) =
           history (load_stats s) @ replicate n zoe_served"
  using assms
proof (induction n arbitrary: s)
  case 0
  then show ?case by simp
next
  case (Suc n)
  let ?s1 = "snd (serve (QueueAdd ''deadbeef'' (named ''Zoe'')) s)"
  let ?s2 = "snd (serve (QueueNext ''deadbeef'' ''08:00:00'') ?s1)"
  have given: "name_given (named ''Zoe'')"
    by (simp add: name_given_named)
  have added: "load_data ?s1 ''deadbeef'' = Some (qu\<lparr>users := [''Zoe'']\<rparr>)"
    using serve_add_present(2) [OF Suc.prems(1) given] Suc.prems(2)
    by (simp add: payload_named)
  have waiting: "users (qu\<lparr>users := [''Zoe'']\<rparr>) = ''Zoe'' # []"
    by simp
  have served: "load_data ?s2 ''deadbeef'' = Some qu"
    using serve_next_front(2) [OF added waiting, of "''08:00:00''"] Suc.prems(2) by simp
  have hist: "history (load_stats ?s2) = history (load_stats s) @ [zoe_served]"
    using Suc.prems(3)
    by (simp add: serve_next_stats [OF added waiting] serve_add_stats keep_last_short zoe_served_def)
  then have "length (history (load_stats ?s2)) + n \<le> 50"
    using Suc.prems(3) by simp
  from Suc.IH [OF served Suc.prems(2) this] hist show ?case
    by (simp add: case_prod_beta Let_def replicate_app_Cons_same)
qed

lemma load_data_init_fs: "load_data init_fs = Map.empty"
  by (simp add: init_fs_def fresh_fs_def initialize_def save_data_def save_stats_def load_data_def)

lemma load_stats_init_fs: "load_stats init_fs = default_stats"
  by (simp add: init_fs_def fresh_fs_def initialize_def save_data_def save_stats_def load_stats_def)

lemma busy_day_facts:
  "reachable busy_day"
  "load_data busy_day ''deadbeef'' = Some \<lparr>created = 100, users = []\<rparr>"
  "history (load_stats busy_day) = replicate 50 zoe_served"
proof -
  let ?s0 = "snd (serve (CreateQueue uuid_a 100 ''http://localhost:5000'') init_fs)"
  have run: "busy_day = snd (run (serve_rounds 50) ?s0)"
    by (simp add: busy_day_def case_prod_beta Let_def)
  show "reachable busy_day"
    unfolding busy_day_def by (rule reachable_run) (rule reachable.start)
  have created: "load_data ?s0 ''deadbeef'' = Some \<lparr>created = 100, users = []\<rparr>"
    by (simp add: serve_create take_uuid_a)
  have "length (history (load_stats ?s0)) + 50 \<le> 50"
    by (simp add: serve_create_stats load_stats_init_fs default_stats_def)
  from serve_rounds_history [OF created _ this]
  show "load_data busy_day ''deadbeef'' = Some \<lparr>created = 100, users = []\<rparr>"
    and "history (load_stats busy_day) = replicate 50 zoe_served"
    by (simp_all add: run serve_create_stats load_stats_init_fs default_stats_def)
qed

text \<open>
  Claim C3. In every state the service can reach from a fresh start, the history holds at
  most 50 entries, and it still does after any request, in particular after each request
  that changes the history: a serve-next on a non-empty queue and a delete of a live queue
  append one entry and keep the last 50, dropping from the head what exceeds 50; clearing the
  last entry removes the newest one; clearing all empties it.
\<close>

theorem history_at_most_50:
  assumes "reachable s"
  shows "length (history (load_stats s)) \<le> 50
       \<and> length (history (load_stats (snd (serve r s)))) \<le> 50
       \<and> (\<forall>q c qu x xs. load_data s q = Some qu \<and> users qu = x # xs \<longrightarrow>
             history (load_stats (snd (serve (QueueNext q c) s))) =
               drop (Suc (length (history (load_stats s))) - 50)
                 (history (load_stats s) @ [\<lparr>user = x, queue = q, time = c, event = None\<rparr>]))
       \<and> (\<forall>q c qu. load_data s q = Some qu \<longrightarrow>
             history (load_stats (snd (serve (DeleteQueue q c) s))) =
               drop (Suc (length (history (load_stats s))) - 50)
                 (history (load_stats s) @
                    [\<lparr>user = ''-'', queue = q, time = c, event = Some ''Queue deleted''\<rparr>]))
       \<and> history (load_stats (snd (serve ClearLastHistory s))) = butlast (history (load_stats s))
       \<and> history (load_stats (snd (serve ClearAllHistory s))) = []"
proof -
  have now: "length (history (load_stats s)) \<le> 50"
    using assms by (rule reachable_history_bound)
  then have "length (history (load_stats (snd (serve r s)))) \<le> 50"
    by (rule history_bound_step)
  with now show ?thesis
    by (simp add: serve_next_stats serve_delete_stats keep_last_snoc
        serve_clear_last_history serve_clear_all_history)
qed

theorem history_at_most_50_witness:
  "reachable busy_day
   \<and> length (history (load_stats busy_day)) = 50
   \<and> history (load_stats (snd (serve (DeleteQueue ''deadbeef'' ''23:59:59'') busy_day))) =
       replicate 49 zoe_served @
       [\<lparr>user = ''-'', queue = ''deadbeef'', time = ''23:59:59'', event = Some ''Queue deleted''\<rparr>]
   \<and> length (history (load_stats (snd (serve (DeleteQueue ''deadbeef'' ''23:59:59'') busy_day)))) = 50"
proof -
  have "drop (Suc 0) (replicate 50 zoe_served @ [e]) = replicate 49 zoe_served @ [e]" for e
    by (simp add: drop_replicate)
  with history_at_most_50 [OF busy_day_facts(1), of "DeleteQueue ''deadbeef'' ''23:59:59''"]
  show ?thesis
    by (simp add: busy_day_facts)
qed

section \<open>Two saves at once\<close>

lemma erase_save_steps:
  "erase (save_data_steps data) = save_data data"
  "erase (save_stats_steps stats) = save_stats stats"
  by (simp_all add: save_data_steps_def save_stats_steps_def save_data_def save_stats_def)

lemma ops_of_save_data_steps:
  "ops_of dumps (save_data_steps data) =
     [Lock, Truncate QueueStoreDoc, WriteText QueueStoreDoc (dumps (WriteData data)), Unlock]"
  by (simp add: ops_of_def save_data_steps_def save_data_def)

lemma ops_of_save_stats_steps:
  "ops_of dumps (save_stats_steps stats) =
     [Truncate StatsDoc, WriteText StatsDoc (dumps (WriteStats stats))]"
  by (simp add: ops_of_def save_stats_steps_def save_stats_def)

lemma interleave_length:
  "interleave ts as bs s = Some s' \<Longrightarrow> length ts = length as + length bs"
  by (induction ts as bs s rule: interleave.induct) (auto split: option.splits)

lemma locked_atomic_ops:
  assumes "holder s = None"
    and "interleave ts [Lock, Truncate d, WriteText d a, Unlock]
           [Lock, Truncate d, WriteText d b, Unlock] s = Some s'"
  shows "content s' d = a \<or> content s' d = b"
proof -
  from interleave_length [OF assms(2)] have "length ts = 8" by simp
  then obtain t1 t2 t3 t4 t5 t6 t7 t8 where ts: "ts = [t1, t2, t3, t4, t5, t6, t7, t8]"
    by (auto simp add: length_Suc_conv eval_nat_numeral)
  show ?thesis
    using assms unfolding ts
    by (cases t1; cases t2; cases t3; cases t4; cases t5; cases t6; cases t7; cases t8)
       (auto split: if_splits)
qed

lemma unlocked_torn_ops:
  "interleave [False, True, False, True]
     [Truncate d, WriteText d a] [Truncate d, WriteText d b] s =
   Some (s\<lparr>content := (content s)(d := b @ drop (length b) a)\<rparr>)"
  by simp

lemma sample_dumps_stats:
  \<open>sample_dumps (WriteStats alice_served_stats) =
     ''{"served_today": 1, "history": [{"user": "Alice", "queue": "deadbeef", "time": "10:00:00"}]}''\<close>
  \<open>sample_dumps (WriteStats default_stats) = ''{"served_today": 0, "history": []}''\<close>
  by (simp_all add: sample_dumps_def alice_served_stats_def default_stats_def)

lemma sample_dumps_data:
  \<open>sample_dumps (WriteData Map.empty) = ''{}''\<close>
  \<open>sample_dumps (WriteData one_empty_queue) = ''{"deadbeef": {"created": 100.0, "users": []}}''\<close>
  by (simp_all add: sample_dumps_def one_empty_queue_def)

text \<open>
  Claim C9. The claim asks that every save of either document be serialised by a lock held
  for the whole write. \<open>save_data\<close> does that: its write is under the lock, and however two
  of them are scheduled the queue store ends as the full text of one of the two documents.
  \<open>save_stats\<close> does not: it writes with no lock held, and two of them can run so that both
  truncate before either writes; the file then holds the text written last followed by the
  tail of the text written first, which is a whole document only if the second text is not
  shorter than the first or is a prefix of it.
\<close>

theorem save_stats_not_serialized:
  "writes_under_lock False (save_data_steps data1)
   \<and> (\<forall>ts s0 s1. holder s0 = None \<and>
         interleave ts (ops_of dumps (save_data_steps data1)) (ops_of dumps (save_data_steps data2)) s0
           = Some s1 \<longrightarrow>
         content s1 QueueStoreDoc = dumps (WriteData data1)
         \<or> content s1 QueueStoreDoc = dumps (WriteData data2))
   \<and> \<not> writes_under_lock False (save_stats_steps stats1)
   \<and> interleave [False, True, False, True]
         (ops_of dumps (save_stats_steps stats1)) (ops_of dumps (save_stats_steps stats2)) s
       = Some (s\<lparr>content := (content s)
                 (StatsDoc := dumps (WriteStats stats2) @
                    drop (length (dumps (WriteStats stats2))) (dumps (WriteStats stats1)))\<rparr>)
   \<and> (length (dumps (WriteStats stats2)) < length (dumps (WriteStats stats1)) \<longrightarrow>
         dumps (WriteStats stats2) @
           drop (length (dumps (WriteStats stats2))) (dumps (WriteStats stats1))
         \<noteq> dumps (WriteStats stats2))
   \<and> (take (length (dumps (WriteStats stats2))) (dumps (WriteStats stats1))
         \<noteq> dumps (WriteStats stats2) \<longrightarrow>
         dumps (WriteStats stats2) @
           drop (length (dumps (WriteStats stats2))) (dumps (WriteStats stats1))
         \<noteq> dumps (WriteStats stats1))"
proof -
  have locked: "writes_under_lock False (save_data_steps data1)"
    by (simp add: save_data_steps_def save_data_def)
  have unlocked: "\<not> writes_under_lock False (save_stats_steps stats1)"
    by (simp add: save_stats_steps_def save_stats_def)
  have whole: "content s' QueueStoreDoc = dumps (WriteData data1)
      \<or> content s' QueueStoreDoc = dumps (WriteData data2)"
    if "holder s = None"
      and "interleave ts (ops_of dumps (save_data_steps data1))
             (ops_of dumps (save_data_steps data2)) s = Some s'"
    for ts s s'
    using that unfolding ops_of_save_data_steps by (rule locked_atomic_ops)
  have not_second: "b @ drop (length b) a \<noteq> b" if "length b < length a" for a b :: string
    using that by simp
  have not_first: "b @ drop (length b) a \<noteq> a" if "take (length b) a \<noteq> b" for a b :: string
  proof
    assume "b @ drop (length b) a = a"
    then have "take (length b) (b @ drop (length b) a) = take (length b) a"
      by simp
    with that show False by simp
  qed
  from locked unlocked whole not_second not_first show ?thesis
    by (simp add: ops_of_save_stats_steps unlocked_torn_ops del: interleave.simps) blast
qed

theorem save_stats_not_serialized_witness:
  \<open>\<not> writes_under_lock False (save_stats_steps alice_served_stats)
   \<and> map_option (\<lambda>s. content s StatsDoc)
       (interleave [False, True, False, True]
          (ops_of sample_dumps (save_stats_steps alice_served_stats))
          (ops_of sample_dumps (save_stats_steps default_stats)) idle)
     = Some ''{"served_today": 0, "history": []}user": "Alice", "queue": "deadbeef", "time": "10:00:00"}]}''
   \<and> ''{"served_today": 0, "history": []}user": "Alice", "queue": "deadbeef", "time": "10:00:00"}]}''
       \<noteq> sample_dumps (WriteStats alice_served_stats)
   \<and> ''{"served_today": 0, "history": []}user": "Alice", "queue": "deadbeef", "time": "10:00:00"}]}''
       \<noteq> sample_dumps (WriteStats default_stats)
   \<and> writes_under_lock False (save_data_steps one_empty_queue)
   \<and> map_option (\<lambda>s. content s QueueStoreDoc)
       (interleave [False, False, False, False, True, True, True, True]
          (ops_of sample_dumps (save_data_steps Map.empty))
          (ops_of sample_dumps (save_data_steps one_empty_queue)) idle)
     = Some ''{"deadbeef": {"created": 100.0, "users": []}}''\<close>
proof -
  note stats = save_stats_not_serialized
    [of one_empty_queue sample_dumps one_empty_queue alice_served_stats default_stats idle]
  note data = save_stats_not_serialized
    [of Map.empty sample_dumps one_empty_queue alice_served_stats default_stats idle]
  have run: "interleave [False, False, False, False, True, True, True, True]
          (ops_of sample_dumps (save_data_steps Map.empty))
          (ops_of sample_dumps (save_data_steps one_empty_queue)) idle
        = Some (idle\<lparr>content := (content idle)
                  (QueueStoreDoc := sample_dumps (WriteData one_empty_queue))\<rparr>)"
    by (simp add: ops_of_save_data_steps idle_def)
  have "holder idle = None"
    by (simp add: idle_def)
  with data run
  have "content (idle\<lparr>content := (content idle)
                  (QueueStoreDoc := sample_dumps (WriteData one_empty_queue))\<rparr>) QueueStoreDoc
          = sample_dumps (WriteData Map.empty)
      \<or> content (idle\<lparr>content := (content idle)
                  (QueueStoreDoc := sample_dumps (WriteData one_empty_queue))\<rparr>) QueueStoreDoc
          = sample_dumps (WriteData one_empty_queue)"
    by blast
  with stats run show ?thesis
    by (simp add: sample_dumps_stats sample_dumps_data idle_def)
qed

end
